theory Spec2Isabelle
  imports Complex_Main "HOL-Library.Word" "HOL-Library.Multiset"
begin

section \<open>The plugin bridge of the Figma MCP server\<close>

text \<open>
  A shallow embedding of the class \<open>PluginBridge\<close> (plugin-bridge.ts): the registry
  \<open>responseCallbacks\<close>, the carry \<open>messageBuffer\<close>, the counter \<open>messageId\<close>, the
  child process handle, and the methods \<open>sendCommand\<close>, \<open>handlePluginOutput\<close>,
  \<open>generateId\<close>, \<open>shutdown\<close> and the exit handler installed by \<open>initialize\<close>.
\<close>

subsection \<open>Strings\<close>

text \<open>
  A JavaScript string is a sequence of UTF-16 code units. \<open>ascii\<close> writes a literal.
\<close>

type_synonym code_unit = "16 word"
type_synonym jsstring = "code_unit list"

definition ascii :: "string \<Rightarrow> jsstring" where
  "ascii s = map of_char s"

definition nl :: code_unit where
  "nl = 10"

text \<open>
  \<open>s.split('\n')\<close>: the segments between the separators, in order; a string with
  \<open>n\<close> separators has \<open>n + 1\<close> segments, so the result is never empty.
\<close>

fun split_nl :: "jsstring \<Rightarrow> jsstring list" where
  "split_nl [] = [[]]"
| "split_nl (c # cs) =
     (if c = nl then [] # split_nl cs
      else (case split_nl cs of [] \<Rightarrow> [[c]] | l # ls \<Rightarrow> (c # l) # ls))"

text \<open>
  \<open>s.trim()\<close> removes leading and trailing WhiteSpace and LineTerminator code units
  (ECMAScript, String.prototype.trim).
\<close>

definition is_ws :: "code_unit \<Rightarrow> bool" where
  "is_ws c \<longleftrightarrow>
     c = 0x09 \<or> c = 0x0A \<or> c = 0x0B \<or> c = 0x0C \<or> c = 0x0D \<or> c = 0x20 \<or>
     c = 0xA0 \<or> c = 0x1680 \<or> (0x2000 \<le> c \<and> c \<le> 0x200A) \<or>
     c = 0x2028 \<or> c = 0x2029 \<or> c = 0x202F \<or> c = 0x205F \<or> c = 0x3000 \<or>
     c = 0xFEFF"

definition trim :: "jsstring \<Rightarrow> jsstring" where
  "trim s = rev (dropWhile is_ws (rev (dropWhile is_ws s)))"

subsection \<open>Values read from the plugin\<close>

text \<open>
  What \<open>JSON.parse\<close> returns. An object lists its members, each name once. A number
  is kept as the real it denotes; the bridge only tests numbers for truthiness and passes
  them on.
\<close>

datatype json =
    JNull
  | JBool bool
  | JNum real
  | JStr jsstring
  | JArr "json list"
  | JObj "(jsstring \<times> json) list"

datatype js_error = SyntaxError | TypeError | OtherError jsstring

text \<open>
  Property access \<open>v.name\<close> for one of the names \<open>id\<close>, \<open>success\<close>, \<open>data\<close>,
  \<open>error\<close>: a \<open>TypeError\<close> on \<open>null\<close>, the member of an object, and \<open>undefined\<close>
  (\<open>None\<close>) otherwise; no prototype of a parsed value defines one of these names.
\<close>

fun get_prop :: "json \<Rightarrow> jsstring \<Rightarrow> js_error + json option" where
  "get_prop JNull name = Inl TypeError"
| "get_prop (JObj members) name = Inr (map_of members name)"
| "get_prop v name = Inr None"

text \<open>ToBoolean, on a value or \<open>undefined\<close>.\<close>

fun truthy :: "json option \<Rightarrow> bool" where
  "truthy None = False"
| "truthy (Some JNull) = False"
| "truthy (Some (JBool b)) = b"
| "truthy (Some (JNum x)) = (x \<noteq> 0)"
| "truthy (Some (JStr s)) = (s \<noteq> [])"
| "truthy (Some (JArr xs)) = True"
| "truthy (Some (JObj ms)) = True"

subsection \<open>Promises, console and the bridge state\<close>

text \<open>
  The reason a promise of \<open>sendCommand\<close> is rejected with: \<open>RemoteError v\<close> is
  \<open>new Error(v)\<close> for \<open>v = response.error || 'Unknown error'\<close>, \<open>NotInitialized\<close> is
  \<open>new Error('Plugin process not initialized')\<close>, \<open>Thrown e\<close> is an error caught by
  the executor's \<open>catch\<close>, \<open>InitFailed\<close> an error thrown by \<open>initialize\<close>.
\<close>

datatype init_error = CliNotFound | PluginDirNotFound | SpawnThrew

datatype rejection =
    RemoteError json
  | NotInitialized
  | Thrown js_error
  | InitFailed init_error

datatype promise = Pending | Fulfilled "json option" | Rejected rejection

datatype console_entry =
    LogNoCallback json
  | ErrParsing js_error jsstring
  | LogStarting
  | LogStarted
  | ErrInitFailed init_error
  | LogExited "int option"

text \<open>
  The child process as the bridge sees it: \<open>stdin\<close> is \<open>None\<close> when the process has no
  stdin stream, and otherwise holds what has been written to it, oldest first.
\<close>

record process =
  stdin :: "jsstring list option"

text \<open>
  A callback stored in \<open>responseCallbacks\<close> is the closure created by \<open>sendCommand\<close>;
  all of them run the same code and differ in the \<open>resolve\<close>/\<open>reject\<close> pair they
  capture, so a callback is the handle of its promise: an index into \<open>promises\<close>, the
  promises created so far.
\<close>

record bridge =
  pluginProcess :: "process option"
  responseCallbacks :: "jsstring \<rightharpoonup> nat"
  messageBuffer :: jsstring
  messageId :: nat
  promises :: "promise list"
  console :: "console_entry list"

definition initial :: bridge where
  "initial = \<lparr> pluginProcess = None, responseCallbacks = Map.empty, messageBuffer = [],
               messageId = 0, promises = [], console = [] \<rparr>"

text \<open>\<open>resolve\<close> and \<open>reject\<close> settle a promise once; later calls do nothing.\<close>

definition settle :: "nat \<Rightarrow> promise \<Rightarrow> bridge \<Rightarrow> bridge" where
  "settle h v s =
     (if h < length (promises s) \<and> promises s ! h = Pending
      then s\<lparr>promises := (promises s)[h := v]\<rparr> else s)"

definition console_out :: "console_entry \<Rightarrow> bridge \<Rightarrow> bridge" where
  "console_out e s = s\<lparr>console := console s @ [e]\<rparr>"

subsection \<open>handlePluginOutput\<close>

text \<open>
  \<open>new Error(v)\<close> converts \<open>v\<close> to a string, and the conversion of a parsed value can
  throw a \<open>TypeError\<close>: an object with a member named \<open>toString\<close> has no callable
  \<open>toString\<close> (no parsed value is a function) and its inherited \<open>valueOf\<close> returns the
  object itself; an array is joined from the conversions of its elements other than
  \<open>null\<close>. Every other value converts.
\<close>

fun to_string_throws :: "json \<Rightarrow> bool" where
  "to_string_throws (JObj members) = (map_of members (ascii ''toString'') \<noteq> None)"
| "to_string_throws (JArr elements) = (\<exists>x \<in> set elements. to_string_throws x)"
| "to_string_throws v = False"

text \<open>
  The callback body:
  \<open>if (response.success) resolve(response.data) else
    reject(new Error(response.error || 'Unknown error'))\<close>.
  It is only called on a response whose \<open>id\<close> was read, so property access does not
  throw; those \<open>Inl\<close> branches keep the function total. When \<open>new Error\<close> throws,
  \<open>reject\<close> is not reached and the error leaves the callback.
\<close>

definition or_unknown :: "json option \<Rightarrow> json" where
  "or_unknown v = (if truthy v then the v else JStr (ascii ''Unknown error''))"

definition callback :: "nat \<Rightarrow> json \<Rightarrow> bridge \<Rightarrow> js_error + bridge" where
  "callback h response s =
     (case get_prop response (ascii ''success'') of
        Inl e \<Rightarrow> Inl e
      | Inr ok \<Rightarrow>
          if truthy ok then
            (case get_prop response (ascii ''data'') of
               Inl e \<Rightarrow> Inl e
             | Inr d \<Rightarrow> Inr (settle h (Fulfilled d) s))
          else
            (case get_prop response (ascii ''error'') of
               Inl e \<Rightarrow> Inl e
             | Inr err \<Rightarrow>
                 if to_string_throws (or_unknown err) then Inl TypeError
                 else Inr (settle h (Rejected (RemoteError (or_unknown err))) s)))"

text \<open>
  \<open>this.responseCallbacks.has(response.id)\<close>: the keys are strings, so only a string
  can be found.
\<close>

fun has_callback :: "(jsstring \<rightharpoonup> nat) \<Rightarrow> json option \<Rightarrow> bool" where
  "has_callback m (Some (JStr k)) = (m k \<noteq> None)"
| "has_callback m v = False"

fun get_callback :: "(jsstring \<rightharpoonup> nat) \<Rightarrow> json option \<Rightarrow> nat option" where
  "get_callback m (Some (JStr k)) = m k"
| "get_callback m v = None"

fun delete_callback :: "json option \<Rightarrow> (jsstring \<rightharpoonup> nat) \<Rightarrow> (jsstring \<rightharpoonup> nat)" where
  "delete_callback (Some (JStr k)) m = m(k := None)"
| "delete_callback v m = m"

text \<open>
  The body of the \<open>try\<close> in the loop of \<open>handlePluginOutput\<close>; \<open>parse\<close> is
  \<open>JSON.parse\<close>, with \<open>None\<close> for a thrown \<open>SyntaxError\<close>.
\<close>

definition try_line :: "(jsstring \<Rightarrow> json option) \<Rightarrow> jsstring \<Rightarrow> bridge \<Rightarrow> js_error + bridge" where
  "try_line parse line s =
     (case parse line of
        None \<Rightarrow> Inl SyntaxError
      | Some response \<Rightarrow>
          (case get_prop response (ascii ''id'') of
             Inl e \<Rightarrow> Inl e
           | Inr rid \<Rightarrow>
               if truthy rid \<and> has_callback (responseCallbacks s) rid then
                 (case get_callback (responseCallbacks s) rid of
                    None \<Rightarrow> Inr s
                  | Some h \<Rightarrow>
                      (case callback h response s of
                         Inl e \<Rightarrow> Inl e
                       | Inr s' \<Rightarrow>
                           Inr (s'\<lparr>responseCallbacks :=
                                     delete_callback rid (responseCallbacks s')\<rparr>)))
               else Inr (console_out (LogNoCallback response) s)))"

text \<open>One iteration of the loop: the \<open>if (line.trim())\<close>, the \<open>try\<close> and its \<open>catch\<close>.\<close>

definition process_line :: "(jsstring \<Rightarrow> json option) \<Rightarrow> bridge \<Rightarrow> jsstring \<Rightarrow> bridge" where
  "process_line parse s line =
     (if trim line \<noteq> [] then
        (case try_line parse line s of
           Inl e \<Rightarrow> console_out (ErrParsing e line) s
         | Inr s' \<Rightarrow> s')
      else s)"

definition handlePluginOutput :: "(jsstring \<Rightarrow> json option) \<Rightarrow> bridge \<Rightarrow> jsstring \<Rightarrow> bridge" where
  "handlePluginOutput parse s data =
     (let buffer = messageBuffer s @ data;
          lines = split_nl buffer;
          rest = (if last lines = [] then [] else last lines)
      in foldl (process_line parse) (s\<lparr>messageBuffer := rest\<rparr>) (butlast lines))"

text \<open>
  The records one call decodes: every complete segment of \<open>carry + data\<close> that is not
  blank goes through \<open>JSON.parse\<close>, in order. \<open>decoded_stream\<close> collects them over
  successive calls, the carry being the bridge's \<open>messageBuffer\<close>.
\<close>

definition decoded :: "(jsstring \<Rightarrow> json option) \<Rightarrow> jsstring \<Rightarrow> jsstring \<Rightarrow> json option list" where
  "decoded parse carry data =
     map parse (filter (\<lambda>line. trim line \<noteq> []) (butlast (split_nl (carry @ data))))"

fun decoded_stream :: "(jsstring \<Rightarrow> json option) \<Rightarrow> bridge \<Rightarrow> jsstring list \<Rightarrow> json option list" where
  "decoded_stream parse s [] = []"
| "decoded_stream parse s (c # cs) =
     decoded parse (messageBuffer s) c @ decoded_stream parse (handlePluginOutput parse s c) cs"

text \<open>
  What a caller receives from a reply: the settled state its callback produces, when the
  callback returns. It returns unless \<open>success\<close> is falsy and the \<open>error\<close> given does
  not convert to a string.
\<close>

definition prop_of :: "json \<Rightarrow> jsstring \<Rightarrow> json option" where
  "prop_of r name = (case get_prop r name of Inl e \<Rightarrow> None | Inr v \<Rightarrow> v)"

definition reply_outcome :: "json \<Rightarrow> promise" where
  "reply_outcome r =
     (if truthy (prop_of r (ascii ''success''))
      then Fulfilled (prop_of r (ascii ''data''))
      else Rejected (RemoteError (or_unknown (prop_of r (ascii ''error'')))))"

definition callback_returns :: "json \<Rightarrow> bool" where
  "callback_returns r \<longleftrightarrow>
     truthy (prop_of r (ascii ''success'')) \<or>
     \<not> to_string_throws (or_unknown (prop_of r (ascii ''error'')))"

subsection \<open>The stdout handler\<close>

text \<open>
  The child's stdout has no encoding set, so each \<open>data\<close> event carries a \<open>Buffer\<close>,
  and the handler installed by \<open>initialize\<close> calls
  \<open>this.handlePluginOutput(data.toString())\<close>. \<open>toString\<close> decodes the bytes of that
  one Buffer as UTF-8: a well-formed sequence gives its code point (two code units above
  \<open>U+FFFF\<close>), every maximal ill-formed part gives \<open>U+FFFD\<close>, and so does a sequence the
  Buffer ends in the middle of. Nothing is kept from one Buffer to the next.
  \<open>Inside cp n lo hi\<close> is the decoder in the middle of a sequence: the bits read so far,
  the number of bytes still to come, and the range the next byte must lie in.
\<close>

type_synonym byte = "8 word"

datatype utf8_state = Start | Inside nat nat byte byte

definition start_byte :: "byte \<Rightarrow> jsstring \<times> utf8_state" where
  "start_byte b =
     (if b \<le> 0x7F then ([of_nat (unat b)], Start)
      else if 0xC2 \<le> b \<and> b \<le> 0xDF then ([], Inside (unat b mod 32) 1 0x80 0xBF)
      else if 0xE0 \<le> b \<and> b \<le> 0xEF then
        ([], Inside (unat b mod 16) 2 (if b = 0xE0 then 0xA0 else 0x80)
                    (if b = 0xED then 0x9F else 0xBF))
      else if 0xF0 \<le> b \<and> b \<le> 0xF4 then
        ([], Inside (unat b mod 8) 3 (if b = 0xF0 then 0x90 else 0x80)
                    (if b = 0xF4 then 0x8F else 0xBF))
      else ([0xFFFD], Start))"

definition encode_utf16 :: "nat \<Rightarrow> jsstring" where
  "encode_utf16 cp =
     (if cp < 0x10000 then [of_nat cp]
      else [of_nat (0xD800 + (cp - 0x10000) div 0x400),
            of_nat (0xDC00 + (cp - 0x10000) mod 0x400)])"

fun utf8_decode :: "utf8_state \<Rightarrow> byte list \<Rightarrow> jsstring" where
  "utf8_decode Start [] = []"
| "utf8_decode (Inside cp n lo hi) [] = [0xFFFD]"
| "utf8_decode Start (b # bs) = fst (start_byte b) @ utf8_decode (snd (start_byte b)) bs"
| "utf8_decode (Inside cp n lo hi) (b # bs) =
     (if lo \<le> b \<and> b \<le> hi then
        (if n = 1 then encode_utf16 (cp * 64 + unat b mod 64) @ utf8_decode Start bs
         else utf8_decode (Inside (cp * 64 + unat b mod 64) (n - 1) 0x80 0xBF) bs)
      else 0xFFFD # fst (start_byte b) @ utf8_decode (snd (start_byte b)) bs)"

definition buffer_toString :: "byte list \<Rightarrow> jsstring" where
  "buffer_toString data = utf8_decode Start data"

definition on_stdout :: "(jsstring \<Rightarrow> json option) \<Rightarrow> bridge \<Rightarrow> byte list \<Rightarrow> bridge" where
  "on_stdout parse s data = handlePluginOutput parse s (buffer_toString data)"

subsection \<open>generateId\<close>

text \<open>
  Number to string, for the integers of a template literal: decimal digits, and a sign
  for a negative clock reading.
\<close>

definition digit :: "nat \<Rightarrow> code_unit" where
  "digit d = of_nat (48 + d)"

fun digits :: "nat \<Rightarrow> jsstring" where
  "digits n = (if n < 10 then [digit n] else digits (n div 10) @ [digit (n mod 10)])"

declare digits.simps [simp del]

definition int_to_string :: "int \<Rightarrow> jsstring" where
  "int_to_string i = (if i < 0 then ascii ''-'' @ digits (nat (- i)) else digits (nat i))"

text \<open>
  \<open>this.messageId++\<close> on a Number. The counter starts at 0 and counts exactly up to
  \<open>2^53\<close>; there \<open>n + 1\<close> is not a Number and rounds back to \<open>2^53\<close>, so the counter
  stays where it is. It never holds a value above \<open>2^53\<close>.
\<close>

definition number_increment :: "nat \<Rightarrow> nat" where
  "number_increment n = (if n < 2 ^ 53 then n + 1 else n)"

text \<open>
  \<open>`cmd_${Date.now()}_${this.messageId++}`\<close>; \<open>now\<close> is the clock reading.
\<close>

definition make_id :: "int \<Rightarrow> nat \<Rightarrow> jsstring" where
  "make_id now n = ascii ''cmd_'' @ int_to_string now @ ascii ''_'' @ digits n"

definition generateId :: "int \<Rightarrow> bridge \<Rightarrow> jsstring \<times> bridge" where
  "generateId now s =
     (make_id now (messageId s), s\<lparr>messageId := number_increment (messageId s)\<rparr>)"

subsection \<open>initialize, sendCommand, shutdown\<close>

text \<open>
  What \<open>initialize\<close> finds: the version check of the CLI ending with a non-zero exit
  code (\<open>CliMissing\<close>: the code then reports the CLI as not found), the plugin directory
  missing, \<open>spawn\<close> throwing, or a child process. It logs, and sets \<open>pluginProcess\<close>
  only in the last case; an error is logged and rethrown. When the binary of the CLI
  does not exist at all, the version check's own \<open>spawn\<close> emits an \<open>error\<close> event that
  nothing handles and the whole node process ends: no bridge state is left to describe.
\<close>

datatype init_env = CliMissing | DirMissing | SpawnThrows | Spawned process

definition initialize :: "init_env \<Rightarrow> bridge \<Rightarrow> init_error option \<times> bridge" where
  "initialize env s =
     (case env of
        CliMissing \<Rightarrow> (Some CliNotFound, console_out (ErrInitFailed CliNotFound) s)
      | DirMissing \<Rightarrow>
          (Some PluginDirNotFound, console_out (ErrInitFailed PluginDirNotFound) s)
      | SpawnThrows \<Rightarrow>
          (Some SpawnThrew, console_out (ErrInitFailed SpawnThrew) (console_out LogStarting s))
      | Spawned p \<Rightarrow>
          (None, console_out LogStarted ((console_out LogStarting s)\<lparr>pluginProcess := Some p\<rparr>)))"

text \<open>
  The executor of the promise \<open>sendCommand\<close> returns. \<open>stringify command id\<close> is
  \<open>JSON.stringify({...command, id})\<close>, with \<open>Inl\<close> for an error it throws. The result is
  the handle of the new promise and the new state.
\<close>

definition executor ::
  "('c \<Rightarrow> jsstring \<Rightarrow> js_error + jsstring) \<Rightarrow> int \<Rightarrow> 'c \<Rightarrow> bridge \<Rightarrow> nat \<times> bridge" where
  "executor stringify now command s0 =
     (let h = length (promises s0);
          s1 = s0\<lparr>promises := promises s0 @ [Pending]\<rparr>;
          (id', s2) = generateId now s1;
          s3 = s2\<lparr>responseCallbacks := (responseCallbacks s2)(id' \<mapsto> h)\<rparr>
      in case pluginProcess s3 of
           None \<Rightarrow> (h, settle h (Rejected NotInitialized) s3)
         | Some p \<Rightarrow>
             (case stdin p of
                None \<Rightarrow> (h, settle h (Rejected NotInitialized) s3)
              | Some written \<Rightarrow>
                  (case stringify command id' of
                     Inl e \<Rightarrow> (h, settle h (Rejected (Thrown e)) s3)
                   | Inr body \<Rightarrow>
                       (h, s3\<lparr>pluginProcess :=
                                 Some (p\<lparr>stdin := Some (written @ [body @ [nl]])\<rparr>)\<rparr>))))"

text \<open>
  \<open>sendCommand\<close> is an async function. With \<open>pluginProcess\<close> set it runs the executor
  at once. Otherwise it awaits \<open>initialize()\<close>, and \<open>resumeCommand\<close> is what runs when
  that has finished: the effect of \<open>initialize\<close>, whatever \<open>pluginProcess\<close> holds by
  then, and the executor, or the rejection with the error \<open>initialize\<close> threw.
  \<open>sendCommand\<close> below is a call whose wait nothing else falls into; a call whose wait
  other events fall into changes no state when it is made and is the event \<open>Resume\<close>
  when it goes on.
\<close>

definition resumeCommand ::
  "('c \<Rightarrow> jsstring \<Rightarrow> js_error + jsstring) \<Rightarrow> init_env \<Rightarrow> int \<Rightarrow> 'c \<Rightarrow> bridge \<Rightarrow> nat \<times> bridge" where
  "resumeCommand stringify env now command s =
     (case initialize env s of
        (Some e, s') \<Rightarrow>
          (length (promises s'), s'\<lparr>promises := promises s' @ [Rejected (InitFailed e)]\<rparr>)
      | (None, s') \<Rightarrow> executor stringify now command s')"

definition sendCommand ::
  "('c \<Rightarrow> jsstring \<Rightarrow> js_error + jsstring) \<Rightarrow> init_env \<Rightarrow> int \<Rightarrow> 'c \<Rightarrow> bridge \<Rightarrow> nat \<times> bridge" where
  "sendCommand stringify env now command s =
     (case pluginProcess s of
        Some p \<Rightarrow> executor stringify now command s
      | None \<Rightarrow> resumeCommand stringify env now command s)"

definition shutdown :: "bridge \<Rightarrow> bridge" where
  "shutdown s = (case pluginProcess s of None \<Rightarrow> s | Some p \<Rightarrow> s\<lparr>pluginProcess := None\<rparr>)"

text \<open>The handler of the child's \<open>exit\<close> event.\<close>

definition on_exit :: "int option \<Rightarrow> bridge \<Rightarrow> bridge" where
  "on_exit code s = (console_out (LogExited code) s)\<lparr>pluginProcess := None\<rparr>"

text \<open>What can happen to a bridge, and a run of such events.\<close>

datatype 'c event =
    Send init_env int 'c
  | Resume init_env int 'c
  | Output jsstring
  | Shutdown
  | Exit "int option"

fun step ::
  "('c \<Rightarrow> jsstring \<Rightarrow> js_error + jsstring) \<Rightarrow> (jsstring \<Rightarrow> json option) \<Rightarrow>
   bridge \<Rightarrow> 'c event \<Rightarrow> bridge" where
  "step stringify parse s (Send env now command) = snd (sendCommand stringify env now command s)"
| "step stringify parse s (Resume env now command) =
     snd (resumeCommand stringify env now command s)"
| "step stringify parse s (Output data) = handlePluginOutput parse s data"
| "step stringify parse s Shutdown = shutdown s"
| "step stringify parse s (Exit code) = on_exit code s"




subsection \<open>Concrete commands and replies\<close>

text \<open>
  \<open>JSON.stringify\<close> on a string (QuoteJSONString): the quote, the backslash and the
  control characters are escaped, a surrogate that is not part of a pair is written as a
  \<open>\u\<close> escape, every other code unit stands for itself.
\<close>

definition hex_digit :: "nat \<Rightarrow> code_unit" where
  "hex_digit d = (if d < 10 then of_nat (48 + d) else of_nat (87 + d))"

definition unicode_escape :: "code_unit \<Rightarrow> jsstring" where
  "unicode_escape c =
     [0x5C, 0x75, hex_digit (unat c div 4096 mod 16), hex_digit (unat c div 256 mod 16),
      hex_digit (unat c div 16 mod 16), hex_digit (unat c mod 16)]"

definition escape_unit :: "code_unit \<Rightarrow> jsstring" where
  "escape_unit c =
     (if c = 0x08 then [0x5C, 0x62]
      else if c = 0x09 then [0x5C, 0x74]
      else if c = 0x0A then [0x5C, 0x6E]
      else if c = 0x0C then [0x5C, 0x66]
      else if c = 0x0D then [0x5C, 0x72]
      else if c = 0x22 then [0x5C, 0x22]
      else if c = 0x5C then [0x5C, 0x5C]
      else if c < 0x20 then unicode_escape c
      else [c])"

definition is_lead :: "code_unit \<Rightarrow> bool" where
  "is_lead c \<longleftrightarrow> 0xD800 \<le> c \<and> c \<le> 0xDBFF"

definition is_trail :: "code_unit \<Rightarrow> bool" where
  "is_trail c \<longleftrightarrow> 0xDC00 \<le> c \<and> c \<le> 0xDFFF"

fun quote_units :: "jsstring \<Rightarrow> jsstring" where
  "quote_units [] = []"
| "quote_units [c] = (if is_lead c \<or> is_trail c then unicode_escape c else escape_unit c)"
| "quote_units (c # d # cs) =
     (if is_lead c \<and> is_trail d then c # d # quote_units cs
      else if is_lead c \<or> is_trail c then unicode_escape c @ quote_units (d # cs)
      else escape_unit c @ quote_units (d # cs))"

definition quote_json :: "jsstring \<Rightarrow> jsstring" where
  "quote_json s = [0x22] @ quote_units s @ [0x22]"

text \<open>
  The command types of \<open>PluginCommand\<close>, and \<open>JSON.stringify({type, id})\<close> for a
  command sent without payload, as \<open>getCurrentSelection\<close> and \<open>getCurrentPage\<close> do;
  it never throws.
\<close>

datatype command_type =
    CREATE_WIREFRAME | ADD_ELEMENT | STYLE_ELEMENT | MODIFY_ELEMENT
  | ARRANGE_LAYOUT | EXPORT_DESIGN | GET_SELECTION | GET_CURRENT_PAGE

fun type_name :: "command_type \<Rightarrow> jsstring" where
  "type_name CREATE_WIREFRAME = ascii ''CREATE_WIREFRAME''"
| "type_name ADD_ELEMENT = ascii ''ADD_ELEMENT''"
| "type_name STYLE_ELEMENT = ascii ''STYLE_ELEMENT''"
| "type_name MODIFY_ELEMENT = ascii ''MODIFY_ELEMENT''"
| "type_name ARRANGE_LAYOUT = ascii ''ARRANGE_LAYOUT''"
| "type_name EXPORT_DESIGN = ascii ''EXPORT_DESIGN''"
| "type_name GET_SELECTION = ascii ''GET_SELECTION''"
| "type_name GET_CURRENT_PAGE = ascii ''GET_CURRENT_PAGE''"

definition stringify_bare :: "command_type \<Rightarrow> jsstring \<Rightarrow> js_error + jsstring" where
  \<open>stringify_bare ty id' =
     Inr (ascii ''{"type":'' @ quote_json (type_name ty) @ ascii '',"id":'' @ quote_json id' @
          ascii ''}'')\<close>

text \<open>
  A serializer that always throws, as \<open>JSON.stringify\<close> does on a payload that holds a
  \<open>BigInt\<close> or refers to itself.
\<close>

definition stringify_throws :: "command_type \<Rightarrow> jsstring \<Rightarrow> js_error + jsstring" where
  "stringify_throws ty id' = Inl TypeError"

text \<open>
  \<open>JSON.stringify(message)\<close> for \<open>message = {...command, id}\<close>, on commands whose
  payload is plain data: \<open>undefined\<close>, \<open>null\<close>, booleans, numbers that are 32-bit
  integers, \<open>NaN\<close>, the infinities, BigInts, strings, arrays, and objects without
  \<open>toJSON\<close> given by their members in enumeration order. \<open>stringify_value\<close> is
  SerializeJSONProperty: \<open>None\<close> is the result \<open>undefined\<close>; a member whose value is
  \<open>undefined\<close> is left out and such an array element is written \<open>null\<close>; \<open>NaN\<close> and
  the infinities are written \<open>null\<close>; a BigInt throws a \<open>TypeError\<close>. A command is its
  type and, when the object has a \<open>payload\<close> property, the value of that.
\<close>

datatype jsvalue =
    VUndefined
  | VNull
  | VBool bool
  | VInt "32 word"
  | VNaN
  | VInfinity bool
  | VBigInt int
  | VStr jsstring
  | VArr "jsvalue list"
  | VObj "(jsstring \<times> jsvalue) list"



type_synonym command = "command_type \<times> jsvalue option"



text \<open>
  A stand-in for \<open>JSON.parse\<close> on the reply texts of the examples below: it knows
  these texts and rejects every other one.
\<close>

definition reply_ok :: jsstring where
  \<open>reply_ok = ascii ''{"id":"cmd_5_0","success":true,"data":7}''\<close>

definition reply_failed :: jsstring where
  \<open>reply_failed = ascii ''{"id":"cmd_5_1","success":false,"error":"no selection"}''\<close>

definition reply_unsolicited :: jsstring where
  \<open>reply_unsolicited = ascii ''{"type":"ready"}''\<close>

definition parsed_ok :: json where
  "parsed_ok =
     JObj [(ascii ''id'', JStr (ascii ''cmd_5_0'')), (ascii ''success'', JBool True),
           (ascii ''data'', JNum 7)]"

definition parsed_failed :: json where
  "parsed_failed =
     JObj [(ascii ''id'', JStr (ascii ''cmd_5_1'')), (ascii ''success'', JBool False),
           (ascii ''error'', JStr (ascii ''no selection''))]"

definition parsed_unsolicited :: json where
  "parsed_unsolicited = JObj [(ascii ''type'', JStr (ascii ''ready''))]"

text \<open>
  A reply whose \<open>error\<close> is an object with a member \<open>toString\<close>; and a reply whose data
  is the letter \<open>U+00E9\<close>, with the text the plugin's bytes for it decode to when they
  arrive in two Buffers parted between the two bytes of that letter.
\<close>

definition reply_unprintable :: jsstring where
  \<open>reply_unprintable = ascii ''{"id":"cmd_5_0","success":false,"error":{"toString":1}}''\<close>

definition parsed_unprintable :: json where
  "parsed_unprintable =
     JObj [(ascii ''id'', JStr (ascii ''cmd_5_0'')), (ascii ''success'', JBool False),
           (ascii ''error'', JObj [(ascii ''toString'', JNum 1)])]"

definition accent_bytes :: "byte list" where
  \<open>accent_bytes =
     map of_char ''{"id":"cmd_5_0","success":true,"data":"'' @ [0xC3, 0xA9] @
     map of_char ''"}'' @ [0x0A]\<close>

definition reply_accent :: jsstring where
  \<open>reply_accent =
     ascii ''{"id":"cmd_5_0","success":true,"data":"'' @ [0xE9] @ ascii ''"}''\<close>

definition parsed_accent :: json where
  "parsed_accent =
     JObj [(ascii ''id'', JStr (ascii ''cmd_5_0'')), (ascii ''success'', JBool True),
           (ascii ''data'', JStr [0xE9])]"

definition reply_accent_lost :: jsstring where
  \<open>reply_accent_lost =
     ascii ''{"id":"cmd_5_0","success":true,"data":"'' @ [0xFFFD, 0xFFFD] @ ascii ''"}''\<close>

definition parsed_accent_lost :: json where
  "parsed_accent_lost =
     JObj [(ascii ''id'', JStr (ascii ''cmd_5_0'')), (ascii ''success'', JBool True),
           (ascii ''data'', JStr [0xFFFD, 0xFFFD])]"

definition sample_parse :: "jsstring \<Rightarrow> json option" where
  "sample_parse =
     map_of
       [(reply_ok, parsed_ok), (reply_failed, parsed_failed),
        (reply_unsolicited, parsed_unsolicited), (ascii ''null'', JNull),
        (reply_unprintable, parsed_unprintable), (reply_accent, parsed_accent),
        (reply_accent_lost, parsed_accent_lost)]"

text \<open>A bridge whose child process runs and has a stdin stream, nothing sent yet.\<close>

definition running :: bridge where
  "running = initial\<lparr>pluginProcess := Some \<lparr>stdin = Some []\<rparr>\<rparr>"

text \<open>
  Scenarios: one call and two calls on the running bridge at clock reading 5; the first
  call on a fresh bridge whose spawned child has no stdin stream; and a call whose
  command cannot be serialized.
\<close>

definition one_call :: "nat \<times> bridge" where
  "one_call = sendCommand stringify_bare CliMissing 5 GET_SELECTION running"


definition request_text :: jsstring where
  \<open>request_text = ascii ''{"type":"GET_SELECTION","id":"cmd_5_0"}''\<close>

definition no_stdin :: bridge where
  "no_stdin = initial\<lparr>pluginProcess := Some \<lparr>stdin = None\<rparr>\<rparr>"

definition no_stdin_call :: "nat \<times> bridge" where
  "no_stdin_call =
     sendCommand stringify_bare (Spawned \<lparr>stdin = None\<rparr>) 5 GET_SELECTION initial"

definition throwing_call :: "nat \<times> bridge" where
  "throwing_call = sendCommand stringify_throws CliMissing 5 GET_SELECTION running"









text \<open>
  The registry key a reply carries: its \<open>id\<close> when that is a string. A batch of reply
  lines is \<open>awaited\<close> in a state when the lines are records \<open>JSON.parse\<close> accepts,
  their keys differ, and each key is registered to a pending promise of its own.
\<close>

definition reply_key :: "json \<Rightarrow> jsstring option" where
  "reply_key r =
     (case get_prop r (ascii ''id'') of Inr (Some (JStr k)) \<Rightarrow> Some k | _ \<Rightarrow> None)"



text \<open>
  Two states agree on what \<open>handlePluginOutput\<close> reads and settles: registry,
  promises and carry.
\<close>

definition same_core :: "bridge \<Rightarrow> bridge \<Rightarrow> bool" where
  "same_core s s' \<longleftrightarrow>
     responseCallbacks s = responseCallbacks s' \<and> promises s = promises s' \<and>
     messageBuffer s = messageBuffer s'"


subsection \<open>Facts about splitting\<close>

lemma split_nl_nonempty: "split_nl s \<noteq> []"
  by (induction s) (auto split: list.splits)

lemma split_nl_Cons [simp]:
  "split_nl (c # cs) =
     (if c = nl then [] # split_nl cs else (c # hd (split_nl cs)) # tl (split_nl cs))"
  using split_nl_nonempty [of cs] by (cases "split_nl cs") auto

declare split_nl.simps(2) [simp del]

lemma split_nl_no_nl: "l \<in> set (split_nl s) \<Longrightarrow> nl \<notin> set l"
proof (induction s arbitrary: l)
  case Nil
  then show ?case by simp
next
  case (Cons c cs)
  have ne: "split_nl cs \<noteq> []" by (rule split_nl_nonempty)
  show ?case
  proof (cases "c = nl")
    case True
    with Cons show ?thesis by auto
  next
    case False
    from Cons.prems False have "l = c # hd (split_nl cs) \<or> l \<in> set (tl (split_nl cs))"
      by simp
    then show ?thesis
    proof
      assume "l = c # hd (split_nl cs)"
      moreover have "nl \<notin> set (hd (split_nl cs))"
        using Cons.IH [of "hd (split_nl cs)"] ne by simp
      ultimately show ?thesis using False by auto
    next
      assume "l \<in> set (tl (split_nl cs))"
      then have "l \<in> set (split_nl cs)" using ne by (auto dest: list.set_sel(2))
      then show ?thesis by (rule Cons.IH)
    qed
  qed
qed

lemma split_nl_plain: "nl \<notin> set a \<Longrightarrow> split_nl a = [a]"
  by (induction a) auto

lemma split_nl_cons_line: "nl \<notin> set a \<Longrightarrow> split_nl (a @ nl # b) = a # split_nl b"
  by (induction a) auto

lemma split_nl_append: "split_nl (a @ nl # b) = split_nl a @ split_nl b"
proof (induction a)
  case Nil
  show ?case by simp
next
  case (Cons c a)
  have "split_nl a \<noteq> []" by (rule split_nl_nonempty)
  with Cons show ?case by simp
qed

lemma takeWhile_rev_no_nl: "nl \<notin> set b \<Longrightarrow> takeWhile (\<lambda>c. c \<noteq> nl) (rev b) = rev b"
  by (induction b) (auto simp: takeWhile_tail)

lemma last_split_nl: "last (split_nl s) = rev (takeWhile (\<lambda>c. c \<noteq> nl) (rev s))"
proof (cases "nl \<in> set s")
  case True
  then obtain a b where s: "s = a @ nl # b" and b: "nl \<notin> set b"
    by (auto dest: split_list_last)
  have "last (split_nl s) = last (split_nl b)"
    unfolding s split_nl_append using split_nl_nonempty [of b] by simp
  also have "\<dots> = b" using b by (simp add: split_nl_plain)
  also have "\<dots> = rev (takeWhile (\<lambda>c. c \<noteq> nl) (rev s))"
    using b by (simp add: s takeWhile_tail takeWhile_rev_no_nl)
  finally show ?thesis .
next
  case False
  then show ?thesis by (simp add: split_nl_plain takeWhile_rev_no_nl)
qed

subsection \<open>The carry and the loop\<close>

lemma settle_buffer:
  "settle h v (s\<lparr>messageBuffer := b\<rparr>) = (settle h v s)\<lparr>messageBuffer := b\<rparr>"
  by (simp add: settle_def)

lemma console_out_buffer:
  "console_out e (s\<lparr>messageBuffer := b\<rparr>) = (console_out e s)\<lparr>messageBuffer := b\<rparr>"
  by (simp add: console_out_def)

lemma callback_buffer:
  "callback h r (s\<lparr>messageBuffer := b\<rparr>) =
   map_sum id (\<lambda>s'. s'\<lparr>messageBuffer := b\<rparr>) (callback h r s)"
  by (simp add: callback_def settle_buffer split: sum.splits)

lemma try_line_buffer:
  "try_line parse line (s\<lparr>messageBuffer := b\<rparr>) =
   map_sum id (\<lambda>s'. s'\<lparr>messageBuffer := b\<rparr>) (try_line parse line s)"
  by (simp add: try_line_def callback_buffer console_out_buffer split: option.splits sum.splits)

lemma process_line_buffer:
  "process_line parse (s\<lparr>messageBuffer := b\<rparr>) line = (process_line parse s line)\<lparr>messageBuffer := b\<rparr>"
  by (simp add: process_line_def try_line_buffer console_out_buffer split: sum.splits)

lemma process_line_keeps_buffer: "messageBuffer (process_line parse s line) = messageBuffer s"
proof -
  have "process_line parse s line = process_line parse (s\<lparr>messageBuffer := messageBuffer s\<rparr>) line"
    by simp
  also have "\<dots> = (process_line parse s line)\<lparr>messageBuffer := messageBuffer s\<rparr>"
    by (rule process_line_buffer)
  finally have "messageBuffer (process_line parse s line) =
    messageBuffer ((process_line parse s line)\<lparr>messageBuffer := messageBuffer s\<rparr>)"
    by simp
  then show ?thesis by simp
qed

lemma foldl_process_line_buffer:
  "foldl (process_line parse) (s\<lparr>messageBuffer := b\<rparr>) ls =
   (foldl (process_line parse) s ls)\<lparr>messageBuffer := b\<rparr>"
  by (induction ls arbitrary: s) (simp_all add: process_line_buffer)

lemma split_nl_carry:
  "split_nl (x @ y) = butlast (split_nl x) @ split_nl (last (split_nl x) @ y)"
proof (cases "nl \<in> set x")
  case True
  then obtain a b where x: "x = a @ nl # b" and b: "nl \<notin> set b"
    by (auto dest: split_list_last)
  have ne: "split_nl b \<noteq> []" "split_nl (b @ y) \<noteq> []" by (rule split_nl_nonempty)+
  have "split_nl (x @ y) = split_nl a @ split_nl (b @ y)"
    using split_nl_append [of a "b @ y"] by (simp add: x)
  moreover have "split_nl x = split_nl a @ [b]"
    using b by (simp add: x split_nl_append split_nl_plain)
  ultimately show ?thesis by simp
next
  case False
  then show ?thesis by (simp add: split_nl_plain)
qed

lemma handle_def2:
  "handlePluginOutput parse s data =
   (foldl (process_line parse) s (butlast (split_nl (messageBuffer s @ data))))
     \<lparr>messageBuffer := last (split_nl (messageBuffer s @ data))\<rparr>"
  by (simp add: handlePluginOutput_def Let_def foldl_process_line_buffer)

lemma foldl_process_line_keeps_buffer:
  "messageBuffer (foldl (process_line parse) s ls) = messageBuffer s"
  by (induction ls arbitrary: s) (simp_all add: process_line_keeps_buffer)

lemma handle_append:
  "handlePluginOutput parse (handlePluginOutput parse s a) b = handlePluginOutput parse s (a @ b)"
proof -
  let ?m = "messageBuffer s"
  have ne: "split_nl (last (split_nl (?m @ a)) @ b) \<noteq> []" by (rule split_nl_nonempty)
  have sp: "split_nl (?m @ a @ b) =
            butlast (split_nl (?m @ a)) @ split_nl (last (split_nl (?m @ a)) @ b)"
    using split_nl_carry [of "?m @ a" b] by simp
  show ?thesis
    unfolding handle_def2 [of parse s "a @ b"] sp
    using ne
    by (simp add: handle_def2 foldl_process_line_buffer butlast_append)
qed

lemma handle_chunks:
  "foldl (handlePluginOutput parse) s (c # cs) = handlePluginOutput parse s (concat (c # cs))"
proof (induction cs arbitrary: s c)
  case Nil
  show ?case by simp
next
  case (Cons d cs)
  have "foldl (handlePluginOutput parse) s (c # d # cs) =
        foldl (handlePluginOutput parse) (handlePluginOutput parse s c) (d # cs)" by simp
  also have "\<dots> = handlePluginOutput parse (handlePluginOutput parse s c) (concat (d # cs))"
    by (rule Cons.IH)
  also have "\<dots> = handlePluginOutput parse s (concat (c # d # cs))"
    by (simp add: handle_append)
  finally show ?case .
qed

lemma buffer_after: "messageBuffer (handlePluginOutput parse s data) = last (split_nl (messageBuffer s @ data))"
  by (simp add: handle_def2)

lemma decoded_append:
  "decoded parse carry (a @ b) =
   decoded parse carry a @ decoded parse (last (split_nl (carry @ a))) b"
proof -
  have ne: "split_nl (last (split_nl (carry @ a)) @ b) \<noteq> []" by (rule split_nl_nonempty)
  have sp: "split_nl (carry @ a @ b) =
            butlast (split_nl (carry @ a)) @ split_nl (last (split_nl (carry @ a)) @ b)"
    using split_nl_carry [of "carry @ a" b] by simp
  show ?thesis using ne by (simp add: decoded_def sp butlast_append)
qed

lemma decoded_chunks:
  "decoded_stream parse s (c # cs) = decoded parse (messageBuffer s) (concat (c # cs))"
proof (induction cs arbitrary: s c)
  case Nil
  show ?case by simp
next
  case (Cons d cs)
  show ?case
    using Cons.IH [of "handlePluginOutput parse s c" d]
    by (simp add: decoded_append buffer_after)
qed

text \<open>
  Claim C10. After every call of \<open>handlePluginOutput\<close> the carry \<open>messageBuffer\<close>
  holds no newline: it is the part of the old carry followed by the new data that comes
  after the last newline. Over a whole run from the initial bridge it is the part of all
  the input received so far that comes after its last newline, so no complete record
  stays in the carry.
\<close>

theorem carry_has_no_separator:
  "nl \<notin> set (messageBuffer (handlePluginOutput parse s data)) \<and>
   messageBuffer (handlePluginOutput parse s data) =
     rev (takeWhile (\<lambda>c. c \<noteq> nl) (rev (messageBuffer s @ data))) \<and>
   messageBuffer (foldl (handlePluginOutput parse) initial chunks) =
     rev (takeWhile (\<lambda>c. c \<noteq> nl) (rev (concat chunks)))"
proof (intro conjI)
  have "last (split_nl (messageBuffer s @ data)) \<in> set (split_nl (messageBuffer s @ data))"
    using split_nl_nonempty by (rule last_in_set)
  then show "nl \<notin> set (messageBuffer (handlePluginOutput parse s data))"
    unfolding buffer_after by (rule split_nl_no_nl)
  show "messageBuffer (handlePluginOutput parse s data) =
     rev (takeWhile (\<lambda>c. c \<noteq> nl) (rev (messageBuffer s @ data)))"
    unfolding buffer_after by (rule last_split_nl)
  show "messageBuffer (foldl (handlePluginOutput parse) initial chunks) =
     rev (takeWhile (\<lambda>c. c \<noteq> nl) (rev (concat chunks)))"
  proof (cases chunks)
    case Nil
    then show ?thesis by (simp add: initial_def)
  next
    case (Cons c cs)
    have "messageBuffer initial = []" by (simp add: initial_def)
    then show ?thesis
      unfolding Cons handle_chunks buffer_after last_split_nl by simp
  qed
qed

text \<open>
  On the strings \<open>handlePluginOutput\<close> is called with, the result does not depend on
  where the text is cut: feeding the strings \<open>c # cs\<close> one call at a time leaves the
  bridge (registry, promises, console, carry) in the state a single call on their
  concatenation leaves it in, and the records decoded along the way are the same, in
  the same order. This is what the carry \<open>messageBuffer\<close> is for.
\<close>

lemma string_chunks_invariant:
  "foldl (handlePluginOutput parse) s (c # cs) = handlePluginOutput parse s (concat (c # cs)) \<and>
   decoded_stream parse s (c # cs) = decoded parse (messageBuffer s) (concat (c # cs))"
  using handle_chunks decoded_chunks by blast

subsection \<open>Replies\<close>

lemma get_prop_not_null: "r \<noteq> JNull \<Longrightarrow> get_prop r name = Inr (prop_of r name)"
  by (cases r) (simp_all add: prop_of_def)

lemma get_prop_Inr_not_null: "get_prop r name = Inr v \<Longrightarrow> r \<noteq> JNull"
  by (cases r) simp_all

lemma callback_reply:
  "r \<noteq> JNull \<Longrightarrow> callback_returns r \<Longrightarrow> callback h r s = Inr (settle h (reply_outcome r) s)"
  by (auto simp: callback_def reply_outcome_def callback_returns_def get_prop_not_null)

lemma callback_throwing:
  "r \<noteq> JNull \<Longrightarrow> \<not> callback_returns r \<Longrightarrow> callback h r s = Inl TypeError"
  by (auto simp: callback_def callback_returns_def get_prop_not_null)

lemma has_callback_get: "has_callback m rid \<longleftrightarrow> get_callback m rid \<noteq> None"
  by (induction m rid rule: has_callback.induct) simp_all

lemma try_line_deliver:
  assumes "parse line = Some r" and "get_prop r (ascii ''id'') = Inr rid"
    and "truthy rid" and "get_callback (responseCallbacks s) rid = Some h"
    and "callback_returns r"
  shows "try_line parse line s =
         Inr ((settle h (reply_outcome r) s)
                \<lparr>responseCallbacks := delete_callback rid (responseCallbacks (settle h (reply_outcome r) s))\<rparr>)"
proof -
  have "r \<noteq> JNull" using assms(2) by (rule get_prop_Inr_not_null)
  then show ?thesis using assms by (simp add: try_line_def has_callback_get callback_reply)
qed

lemma try_line_drop:
  assumes "parse line = Some r" and "get_prop r (ascii ''id'') = Inr rid"
    and "\<not> truthy rid \<or> get_callback (responseCallbacks s) rid = None"
  shows "try_line parse line s = Inr (console_out (LogNoCallback r) s)"
  using assms by (auto simp: try_line_def has_callback_get)

lemma try_line_callback_throws:
  assumes "parse line = Some r" and "get_prop r (ascii ''id'') = Inr rid"
    and "truthy rid" and "get_callback (responseCallbacks s) rid = Some h"
    and "\<not> callback_returns r"
  shows "try_line parse line s = Inl TypeError"
proof -
  have "r \<noteq> JNull" using assms(2) by (rule get_prop_Inr_not_null)
  then show ?thesis using assms by (simp add: try_line_def has_callback_get callback_throwing)
qed

lemma process_line_callback_throws:
  assumes "trim line \<noteq> []" and "parse line = Some r" and "get_prop r (ascii ''id'') = Inr rid"
    and "truthy rid" and "get_callback (responseCallbacks s) rid = Some h"
    and "\<not> callback_returns r"
  shows "process_line parse s line = console_out (ErrParsing TypeError line) s"
  using assms
  by (simp add: process_line_def try_line_callback_throws [where r = r and rid = rid and h = h])

lemma process_line_deliver:
  assumes "trim line \<noteq> []" and "parse line = Some r" and "get_prop r (ascii ''id'') = Inr rid"
    and "truthy rid" and "get_callback (responseCallbacks s) rid = Some h"
    and "callback_returns r"
  shows "process_line parse s line =
         (settle h (reply_outcome r) s)
           \<lparr>responseCallbacks := delete_callback rid (responseCallbacks (settle h (reply_outcome r) s))\<rparr>"
  using assms by (simp add: process_line_def try_line_deliver [where r = r and rid = rid and h = h])

lemma process_line_drop:
  assumes "trim line \<noteq> []" and "parse line = Some r" and "get_prop r (ascii ''id'') = Inr rid"
    and "\<not> truthy rid \<or> get_callback (responseCallbacks s) rid = None"
  shows "process_line parse s line = console_out (LogNoCallback r) s"
  using assms by (simp add: process_line_def try_line_drop [where r = r and rid = rid])

lemma process_line_malformed:
  assumes "trim line \<noteq> []" and "parse line = None"
  shows "process_line parse s line = console_out (ErrParsing SyntaxError line) s"
  using assms by (simp add: process_line_def try_line_def)

lemma handle_line:
  assumes "messageBuffer s = []" and "nl \<notin> set line"
  shows "handlePluginOutput parse s (line @ nl # rest) =
         handlePluginOutput parse (process_line parse s line) rest"
proof -
  have ne: "split_nl rest \<noteq> []" by (rule split_nl_nonempty)
  have sp: "split_nl (line @ nl # rest) = line # split_nl rest"
    using assms(2) by (rule split_nl_cons_line)
  show ?thesis
    using ne assms(1)
    by (simp add: handle_def2 sp process_line_keeps_buffer)
qed

lemma handle_nothing: "messageBuffer s = [] \<Longrightarrow> handlePluginOutput parse s [] = s"
  by (simp add: handle_def2)

lemma handle_one_line:
  assumes "messageBuffer s = []" and "nl \<notin> set line"
  shows "handlePluginOutput parse s (line @ [nl]) = process_line parse s line"
  using handle_line [OF assms, of parse "[]"] assms(1)
  by (simp add: handle_nothing process_line_keeps_buffer)

lemma settle_callbacks: "responseCallbacks (settle h v s) = responseCallbacks s"
  by (simp add: settle_def)

lemma get_callback_delete: "get_callback (delete_callback rid m) rid = None"
  by (induction rid m rule: delete_callback.induct) simp_all

text \<open>
  Claim C4. A reply whose \<open>id\<close> is absent or falsy, or matches no registered callback,
  is only logged: the call leaves registry, promises and carry as they were and adds one
  console line. A reply that resolves its pending call (its callback returns) removes
  its \<open>id\<close> from the registry, so every further reply with the same \<open>id\<close> is such an
  unmatched reply: it settles nothing and changes no promise.
\<close>

theorem unmatched_reply_only_logged:
  assumes "messageBuffer s = []" and "nl \<notin> set line" and "trim line \<noteq> []"
    and "parse line = Some r" and "get_prop r (ascii ''id'') = Inr rid"
  shows "(\<not> truthy rid \<or> get_callback (responseCallbacks s) rid = None \<longrightarrow>
            handlePluginOutput parse s (line @ [nl]) = console_out (LogNoCallback r) s) \<and>
         (truthy rid \<and> get_callback (responseCallbacks s) rid = Some h \<and> callback_returns r \<longrightarrow>
            get_callback (responseCallbacks (handlePluginOutput parse s (line @ [nl]))) rid = None \<and>
            (\<forall>again r'. nl \<notin> set again \<and> trim again \<noteq> [] \<and> parse again = Some r' \<and>
                 get_prop r' (ascii ''id'') = Inr rid \<longrightarrow>
               handlePluginOutput parse (handlePluginOutput parse s (line @ [nl])) (again @ [nl]) =
               console_out (LogNoCallback r') (handlePluginOutput parse s (line @ [nl]))))"
proof (intro conjI impI allI)
  assume "\<not> truthy rid \<or> get_callback (responseCallbacks s) rid = None"
  then show "handlePluginOutput parse s (line @ [nl]) = console_out (LogNoCallback r) s"
    using assms by (simp add: handle_one_line process_line_drop)
next
  assume a: "truthy rid \<and> get_callback (responseCallbacks s) rid = Some h \<and> callback_returns r"
  let ?s1 = "handlePluginOutput parse s (line @ [nl])"
  have s1: "?s1 = process_line parse s line"
    using assms(1,2) by (rule handle_one_line)
  show gone: "get_callback (responseCallbacks ?s1) rid = None"
    unfolding s1 using a assms(3-5)
    by (simp add: process_line_deliver get_callback_delete)
  fix again r'
  assume b: "nl \<notin> set again \<and> trim again \<noteq> [] \<and> parse again = Some r' \<and>
             get_prop r' (ascii ''id'') = Inr rid"
  have buf: "messageBuffer ?s1 = []"
    unfolding s1 using assms(1) by (simp add: process_line_keeps_buffer)
  have "handlePluginOutput parse ?s1 (again @ [nl]) = process_line parse ?s1 again"
    using buf b by (simp add: handle_one_line)
  also have "\<dots> = console_out (LogNoCallback r') ?s1"
    using b gone by (simp add: process_line_drop)
  finally show "handlePluginOutput parse ?s1 (again @ [nl]) = console_out (LogNoCallback r') ?s1" .
qed

text \<open>
  Claim C8. A segment \<open>bad\<close> on which \<open>JSON.parse\<close> throws raises no fault in
  \<open>handlePluginOutput\<close>: the call returns, the segment adds one error line to the
  console and changes neither registry nor promises, and the records after it in the
  same chunk are handled exactly as if the chunk had started with them.
\<close>

theorem malformed_segment_skipped:
  assumes "messageBuffer (handlePluginOutput parse s before) = []"
    and "nl \<notin> set bad" and "trim bad \<noteq> []" and "parse bad = None"
  shows "handlePluginOutput parse s (before @ bad @ nl # rest) =
         handlePluginOutput parse
           (console_out (ErrParsing SyntaxError bad) (handlePluginOutput parse s before)) rest"
proof -
  have "handlePluginOutput parse s (before @ bad @ nl # rest) =
        handlePluginOutput parse (handlePluginOutput parse s before) (bad @ nl # rest)"
    by (simp add: handle_append)
  also have "\<dots> = handlePluginOutput parse
                     (process_line parse (handlePluginOutput parse s before) bad) rest"
    using assms(1,2) by (rule handle_line)
  finally show ?thesis using assms(3,4) by (simp add: process_line_malformed)
qed

subsection \<open>Identifiers\<close>









lemma make_id_nonempty: "make_id t n \<noteq> []"
  by (simp add: make_id_def ascii_def)

subsection \<open>Counter and registry along a run\<close>

lemma settle_simps:
  "responseCallbacks (settle h v s) = responseCallbacks s"
  "messageId (settle h v s) = messageId s"
  "pluginProcess (settle h v s) = pluginProcess s"
  "console (settle h v s) = console s"
  "length (promises (settle h v s)) = length (promises s)"
  by (simp_all add: settle_def)

lemma console_out_simps:
  "responseCallbacks (console_out e s) = responseCallbacks s"
  "messageId (console_out e s) = messageId s"
  "pluginProcess (console_out e s) = pluginProcess s"
  "promises (console_out e s) = promises s"
  "messageBuffer (console_out e s) = messageBuffer s"
  by (simp_all add: console_out_def)





















subsection \<open>Delivering a batch of replies\<close>

lemma reply_key_get_prop:
  "reply_key r = Some k \<Longrightarrow> get_prop r (ascii ''id'') = Inr (Some (JStr k))"
  by (auto simp: reply_key_def split: sum.splits option.splits json.splits)

lemma process_line_reply:
  assumes "trim l \<noteq> []" and "parse l = Some r" and "reply_key r = Some k" and "k \<noteq> []"
    and "responseCallbacks s k = Some h" and "callback_returns r"
  shows "process_line parse s l =
         (settle h (reply_outcome r) s)\<lparr>responseCallbacks := (responseCallbacks s)(k := None)\<rparr>"
proof -
  have "get_prop r (ascii ''id'') = Inr (Some (JStr k))"
    using assms(3) by (rule reply_key_get_prop)
  then show ?thesis
    using assms process_line_deliver [of l parse r "Some (JStr k)" s h]
    by (simp add: settle_simps)
qed














subsection \<open>Sending a batch of commands\<close>

lemma executor_sent:
  assumes "pluginProcess s = Some p" and "stdin p = Some w"
    and "stringify c (make_id now (messageId s)) = Inr body"
  shows "executor stringify now c s =
         (length (promises s),
          s\<lparr>promises := promises s @ [Pending],
            messageId := number_increment (messageId s),
            responseCallbacks := (responseCallbacks s)(make_id now (messageId s) \<mapsto> length (promises s)),
            pluginProcess := Some (p\<lparr>stdin := Some (w @ [body @ [nl]])\<rparr>)\<rparr>)"
  using assms by (simp add: executor_def generateId_def Let_def)







subsection \<open>Closing the transport, registering, failing to send\<close>

lemma settle_same_core:
  assumes "same_core s s'"
  shows "same_core (settle h v s) (settle h v s')"
  using assms by (simp add: same_core_def settle_def)

lemma console_out_same_core: "same_core s s' \<Longrightarrow> same_core (console_out e s) (console_out e' s')"
  by (simp add: same_core_def console_out_def)

lemma process_line_same_core:
  assumes "same_core s s'"
  shows "same_core (process_line parse s line) (process_line parse s' line)"
proof (cases "trim line \<noteq> []")
  case False
  then show ?thesis using assms by (simp add: process_line_def)
next
  case True
  show ?thesis
  proof (cases "parse line")
    case None
    then show ?thesis
      using True assms by (simp add: process_line_malformed console_out_same_core)
  next
    case (Some r)
    show ?thesis
    proof (cases "get_prop r (ascii ''id'')")
      case (Inl e)
      then show ?thesis
        using True Some assms
        by (simp add: process_line_def try_line_def console_out_same_core)
    next
      case (Inr rid)
      have cb: "responseCallbacks s = responseCallbacks s'" using assms by (simp add: same_core_def)
      show ?thesis
      proof (cases "truthy rid \<and> get_callback (responseCallbacks s) rid \<noteq> None")
        case False
        then have "\<not> truthy rid \<or> get_callback (responseCallbacks s) rid = None" by simp
        then show ?thesis
          using True Some Inr assms cb
          by (simp add: process_line_drop [where r = r and rid = rid] console_out_same_core)
      next
        case yes: True
        then obtain h where h: "get_callback (responseCallbacks s) rid = Some h" by auto
        show ?thesis
        proof (cases "callback_returns r")
          case returns: True
          have "same_core (settle h (reply_outcome r) s) (settle h (reply_outcome r) s')"
            using assms by (rule settle_same_core)
          then show ?thesis
            using True Some Inr yes h cb returns
            by (simp add: process_line_deliver [where r = r and rid = rid and h = h]
                same_core_def settle_simps)
        next
          case False
          then show ?thesis
            using True Some Inr yes h cb assms
            by (simp add: process_line_callback_throws [where r = r and rid = rid and h = h]
                console_out_same_core)
        qed
      qed
    qed
  qed
qed

lemma foldl_process_line_same_core:
  "same_core s s' \<Longrightarrow>
   same_core (foldl (process_line parse) s ls) (foldl (process_line parse) s' ls)"
proof (induction ls arbitrary: s s')
  case Nil
  then show ?case by simp
next
  case (Cons l ls)
  from Cons.prems have "same_core (process_line parse s l) (process_line parse s' l)"
    by (rule process_line_same_core)
  then show ?case using Cons.IH by simp
qed

lemma handle_same_core:
  assumes "same_core s s'"
  shows "same_core (handlePluginOutput parse s data) (handlePluginOutput parse s' data)"
proof -
  have buf: "messageBuffer s = messageBuffer s'" using assms by (simp add: same_core_def)
  have "same_core (foldl (process_line parse) s (butlast (split_nl (messageBuffer s @ data))))
                  (foldl (process_line parse) s' (butlast (split_nl (messageBuffer s @ data))))"
    using assms by (rule foldl_process_line_same_core)
  then show ?thesis by (simp add: handle_def2 buf same_core_def)
qed

lemma shutdown_same_core: "same_core (shutdown s) s"
  by (simp add: shutdown_def same_core_def split: option.splits)

lemma on_exit_same_core: "same_core (on_exit code s) s"
  by (simp add: on_exit_def console_out_def same_core_def)

text \<open>
  Claim C3, as the code has it. Closing the transport, by \<open>shutdown\<close> or by the
  child's exit, only clears \<open>pluginProcess\<close> (the exit handler also logs): it settles
  no promise and removes no registry entry, so a call pending at that moment stays
  pending. \<open>handlePluginOutput\<close> does not look at \<open>pluginProcess\<close>: output handled
  after the closure settles promises and updates the registry as it would have before.
\<close>

theorem closure_settles_nothing:
  "pluginProcess (shutdown s) = None \<and>
   promises (shutdown s) = promises s \<and>
   responseCallbacks (shutdown s) = responseCallbacks s \<and>
   pluginProcess (on_exit code s) = None \<and>
   promises (on_exit code s) = promises s \<and>
   responseCallbacks (on_exit code s) = responseCallbacks s \<and>
   promises (handlePluginOutput parse (shutdown s) data) =
     promises (handlePluginOutput parse s data) \<and>
   responseCallbacks (handlePluginOutput parse (shutdown s) data) =
     responseCallbacks (handlePluginOutput parse s data) \<and>
   promises (handlePluginOutput parse (on_exit code s) data) =
     promises (handlePluginOutput parse s data) \<and>
   responseCallbacks (handlePluginOutput parse (on_exit code s) data) =
     responseCallbacks (handlePluginOutput parse s data)"
proof -
  have a: "same_core (handlePluginOutput parse (shutdown s) data) (handlePluginOutput parse s data)"
    using shutdown_same_core by (rule handle_same_core)
  have b: "same_core (handlePluginOutput parse (on_exit code s) data)
                     (handlePluginOutput parse s data)"
    using on_exit_same_core by (rule handle_same_core)
  have c: "pluginProcess (shutdown s) = None \<and> promises (shutdown s) = promises s \<and>
           responseCallbacks (shutdown s) = responseCallbacks s"
    by (simp add: shutdown_def split: option.splits)
  have d: "pluginProcess (on_exit code s) = None \<and> promises (on_exit code s) = promises s \<and>
           responseCallbacks (on_exit code s) = responseCallbacks s"
    by (simp add: on_exit_def console_out_def)
  show ?thesis using a b c d by (simp add: same_core_def)
qed



lemma executor_no_stdin:
  assumes "pluginProcess s = Some p" and "stdin p = None"
  shows "executor stringify now c s =
         (length (promises s),
          s\<lparr>promises := promises s @ [Rejected NotInitialized],
            messageId := number_increment (messageId s),
            responseCallbacks :=
              (responseCallbacks s)(make_id now (messageId s) \<mapsto> length (promises s))\<rparr>)"
  using assms by (simp add: executor_def generateId_def Let_def settle_def)

lemma executor_throws:
  assumes "pluginProcess s = Some p" and "stdin p = Some w"
    and "stringify c (make_id now (messageId s)) = Inl e"
  shows "executor stringify now c s =
         (length (promises s),
          s\<lparr>promises := promises s @ [Rejected (Thrown e)],
            messageId := number_increment (messageId s),
            responseCallbacks :=
              (responseCallbacks s)(make_id now (messageId s) \<mapsto> length (promises s))\<rparr>)"
  using assms by (simp add: executor_def generateId_def Let_def settle_def)

text \<open>
  Claim C6, as the code has it. When the send step fails synchronously, because the
  child process has no stdin stream or because \<open>JSON.stringify\<close> throws, the promise
  is rejected at once with that failure and nothing is written, and the registry entry
  made for the call stays: the id still maps to the callback of the rejected promise.
\<close>

theorem failed_send_stays_registered:
  assumes "pluginProcess s = Some p"
  shows "(stdin p = None \<longrightarrow>
            promises (snd (sendCommand stringify env now c s)) ! fst (sendCommand stringify env now c s)
              = Rejected NotInitialized \<and>
            pluginProcess (snd (sendCommand stringify env now c s)) = Some p \<and>
            responseCallbacks (snd (sendCommand stringify env now c s)) (fst (generateId now s))
              = Some (fst (sendCommand stringify env now c s))) \<and>
         (stdin p = Some w \<and> stringify c (fst (generateId now s)) = Inl e \<longrightarrow>
            promises (snd (sendCommand stringify env now c s)) ! fst (sendCommand stringify env now c s)
              = Rejected (Thrown e) \<and>
            pluginProcess (snd (sendCommand stringify env now c s)) = Some p \<and>
            responseCallbacks (snd (sendCommand stringify env now c s)) (fst (generateId now s))
              = Some (fst (sendCommand stringify env now c s)))"
proof -
  have send: "sendCommand stringify env now c s = executor stringify now c s"
    using assms by (simp add: sendCommand_def)
  show ?thesis
    unfolding send using assms
    by (auto simp: executor_no_stdin executor_throws generateId_def)
qed

subsection \<open>Encoding\<close>

lemma unat_hex_digit: "d < 16 \<Longrightarrow> 48 \<le> unat (hex_digit d)"
proof -
  assume d: "d < 16"
  have a: "unat (of_nat (48 + d) :: code_unit) = (48 + d) mod 2 ^ LENGTH(16)"
    by (rule unat_of_nat)
  have b: "unat (of_nat (87 + d) :: code_unit) = (87 + d) mod 2 ^ LENGTH(16)"
    by (rule unat_of_nat)
  show ?thesis using d a b by (simp add: hex_digit_def)
qed

lemma hex_digit_not_nl: "d < 16 \<Longrightarrow> hex_digit d \<noteq> nl"
proof
  assume "d < 16" and "hex_digit d = nl"
  then have "48 \<le> unat nl" using unat_hex_digit by metis
  then show False by (simp add: nl_def)
qed

lemma unicode_escape_no_nl: "nl \<notin> set (unicode_escape c)"
  using hex_digit_not_nl [of "unat c div 4096 mod 16"] hex_digit_not_nl [of "unat c div 256 mod 16"]
    hex_digit_not_nl [of "unat c div 16 mod 16"] hex_digit_not_nl [of "unat c mod 16"]
  by (simp add: unicode_escape_def nl_def)

lemma escape_unit_no_nl: "nl \<notin> set (escape_unit c)"
  using unicode_escape_no_nl [of c] by (simp add: escape_unit_def nl_def)

lemma lead_not_nl: "is_lead c \<Longrightarrow> c \<noteq> nl"
  by (auto simp: is_lead_def nl_def)

lemma trail_not_nl: "is_trail c \<Longrightarrow> c \<noteq> nl"
  by (auto simp: is_trail_def nl_def)

lemma quote_units_no_nl: "nl \<notin> set (quote_units s)"
  by (induction s rule: quote_units.induct)
    (auto simp: unicode_escape_no_nl escape_unit_no_nl dest: lead_not_nl trail_not_nl)

lemma quote_json_no_nl: "nl \<notin> set (quote_json s)"
proof -
  have "(0x22 :: code_unit) \<noteq> nl" by (simp add: nl_def)
  then show ?thesis by (simp add: quote_json_def quote_units_no_nl)
qed

lemma stringify_bare_no_nl: "\<exists>body. stringify_bare ty k = Inr body \<and> nl \<notin> set body"
proof -
  have \<open>nl \<notin> set (ascii ''{"type":'')\<close> \<open>nl \<notin> set (ascii '',"id":'')\<close>
    \<open>nl \<notin> set (ascii ''}'')\<close>
    by (simp_all add: ascii_def nl_def)
  then show ?thesis by (simp add: stringify_bare_def quote_json_no_nl)
qed












subsection \<open>The claims on concrete bridges\<close>

lemma make_id_5:
  "make_id 5 0 = ascii ''cmd_5_0''" "make_id 5 1 = ascii ''cmd_5_1''"
  "make_id 5 (Suc 0) = ascii ''cmd_5_1''"
  by (simp_all add: make_id_def int_to_string_def digits.simps [of 5] digits.simps [of 0]
      digits.simps [of "Suc 0"] digit_def ascii_def)

lemma running_fields:
  "pluginProcess running = Some \<lparr>stdin = Some []\<rparr>" "messageBuffer running = []"
  "messageId running = 0" "promises running = []" "responseCallbacks running = Map.empty"
  "console running = []"
  by (simp_all add: running_def initial_def)

lemma one_call_eval:
  "one_call =
     (0, running\<lparr>promises := [Pending], messageId := 1,
                 responseCallbacks := [make_id 5 0 \<mapsto> 0],
                 pluginProcess := Some \<lparr>stdin = Some [projr (stringify_bare GET_SELECTION (make_id 5 0)) @ [nl]]\<rparr>\<rparr>)"
  by (simp add: one_call_def sendCommand_def running_fields
      executor_sent [where p = "\<lparr>stdin = Some []\<rparr>" and w = "[]"
        and body = "projr (stringify_bare GET_SELECTION (make_id 5 0))"] stringify_bare_def
      number_increment_def)










text \<open>
  Against claim C3 as stated: one call is pending on the running bridge. After
  \<open>shutdown\<close>, and after the child's exit, its promise is still pending and its id
  still registered; a reply handled after \<open>shutdown\<close> is delivered to the caller.
\<close>

theorem closure_leaves_call_pending:
  "promises (shutdown (snd one_call)) ! fst one_call = Pending \<and>
   promises (on_exit None (snd one_call)) ! fst one_call = Pending \<and>
   responseCallbacks (shutdown (snd one_call)) (make_id 5 0) = Some (fst one_call) \<and>
   promises (handlePluginOutput sample_parse (shutdown (snd one_call)) (reply_ok @ [nl])) ! fst one_call
     = Fulfilled (Some (JNum 7))"
proof -
  have buf: "messageBuffer (shutdown (snd one_call)) = []"
    by (simp add: one_call_eval shutdown_def running_fields)
  have nonl: "nl \<notin> set reply_ok" by (simp add: reply_ok_def ascii_def nl_def)
  have tr: "trim reply_ok \<noteq> []" by (simp add: reply_ok_def ascii_def trim_def is_ws_def)
  have pa: "sample_parse reply_ok = Some parsed_ok" by (simp add: sample_parse_def)
  have key: "reply_key parsed_ok = Some (make_id 5 0)"
    by (simp add: reply_key_def parsed_ok_def make_id_5 ascii_def)
  have reg: "responseCallbacks (shutdown (snd one_call)) (make_id 5 0) = Some 0"
    by (simp add: one_call_eval shutdown_def)
  have ne: "make_id 5 0 \<noteq> []" by (rule make_id_nonempty)
  have ret: "callback_returns parsed_ok"
    by (simp add: callback_returns_def parsed_ok_def prop_of_def ascii_def)
  have "handlePluginOutput sample_parse (shutdown (snd one_call)) (reply_ok @ [nl]) =
        process_line sample_parse (shutdown (snd one_call)) reply_ok"
    using buf nonl by (rule handle_one_line)
  also have "\<dots> = (settle 0 (reply_outcome parsed_ok) (shutdown (snd one_call)))
           \<lparr>responseCallbacks := (responseCallbacks (shutdown (snd one_call)))(make_id 5 0 := None)\<rparr>"
    using tr pa key ne reg ret by (rule process_line_reply)
  finally have "promises (handlePluginOutput sample_parse (shutdown (snd one_call)) (reply_ok @ [nl])) ! 0
      = reply_outcome parsed_ok"
    by (simp add: settle_def one_call_eval shutdown_def)
  moreover have "reply_outcome parsed_ok = Fulfilled (Some (JNum 7))"
    by (simp add: reply_outcome_def parsed_ok_def prop_of_def ascii_def)
  ultimately show ?thesis
    by (simp add: one_call_eval shutdown_def on_exit_def console_out_def)
qed

lemma stringify_request:
  "stringify_bare GET_SELECTION (make_id 5 0) = Inr request_text"
  by (simp add: stringify_bare_def request_text_def make_id_5 quote_json_def ascii_def
      is_lead_def is_trail_def escape_unit_def)

lemma one_call_fields:
  "fst one_call = 0" "promises (snd one_call) = [Pending]"
  "responseCallbacks (snd one_call) = [make_id 5 0 \<mapsto> 0]"
  "messageBuffer (snd one_call) = []" "console (snd one_call) = []"
  "pluginProcess (snd one_call) = Some \<lparr>stdin = Some [request_text @ [nl]]\<rparr>"
  by (simp_all add: one_call_eval running_fields stringify_request)

lemma reply_ok_facts:
  "nl \<notin> set reply_ok" "trim reply_ok \<noteq> []" "sample_parse reply_ok = Some parsed_ok"
  "get_prop parsed_ok (ascii ''id'') = Inr (Some (JStr (make_id 5 0)))"
  "reply_key parsed_ok = Some (make_id 5 0)"
  "reply_outcome parsed_ok = Fulfilled (Some (JNum 7))"
  "callback_returns parsed_ok"
        apply (simp add: reply_ok_def ascii_def nl_def)
      apply (simp add: reply_ok_def ascii_def trim_def is_ws_def)
     apply (simp add: sample_parse_def)
    apply (simp add: parsed_ok_def make_id_5 ascii_def)
   apply (simp add: reply_key_def parsed_ok_def make_id_5 ascii_def)
   apply (simp add: reply_outcome_def parsed_ok_def prop_of_def ascii_def)
  apply (simp add: callback_returns_def parsed_ok_def prop_of_def ascii_def)
  done


text \<open>
  The bytes of a reply whose data is the letter \<open>U+00E9\<close>, decoded as one Buffer
  and as the two Buffers parted after byte 40, between the two bytes of the letter.
\<close>

lemma accent_decoded:
  "buffer_toString accent_bytes = reply_accent @ [nl]"
  "buffer_toString (take 40 accent_bytes) @ buffer_toString (drop 40 accent_bytes) =
     reply_accent_lost @ [nl]"
  by (simp_all add: buffer_toString_def accent_bytes_def reply_accent_def reply_accent_lost_def
      start_byte_def encode_utf16_def ascii_def nl_def)


lemma reply_accent_facts:
  "nl \<notin> set reply_accent" "trim reply_accent \<noteq> []"
  "sample_parse reply_accent = Some parsed_accent"
  "reply_key parsed_accent = Some (make_id 5 0)"
  "reply_outcome parsed_accent = Fulfilled (Some (JStr [0xE9]))"
  "callback_returns parsed_accent"
       apply (simp add: reply_accent_def ascii_def nl_def)
      apply (simp add: reply_accent_def ascii_def trim_def is_ws_def)
     apply (simp add: sample_parse_def reply_accent_def reply_unprintable_def
      reply_unsolicited_def reply_ok_def reply_failed_def ascii_def)
    apply (simp add: reply_key_def parsed_accent_def make_id_5 ascii_def)
   apply (simp add: reply_outcome_def parsed_accent_def prop_of_def ascii_def)
  apply (simp add: callback_returns_def parsed_accent_def prop_of_def ascii_def)
  done

lemma reply_accent_lost_facts:
  "nl \<notin> set reply_accent_lost" "trim reply_accent_lost \<noteq> []"
  "sample_parse reply_accent_lost = Some parsed_accent_lost"
  "reply_key parsed_accent_lost = Some (make_id 5 0)"
  "reply_outcome parsed_accent_lost = Fulfilled (Some (JStr [0xFFFD, 0xFFFD]))"
  "callback_returns parsed_accent_lost"
       apply (simp add: reply_accent_lost_def ascii_def nl_def)
      apply (simp add: reply_accent_lost_def ascii_def trim_def is_ws_def)
     apply (simp add: sample_parse_def reply_accent_lost_def reply_accent_def reply_unprintable_def
      reply_unsolicited_def reply_ok_def reply_failed_def ascii_def)
    apply (simp add: reply_key_def parsed_accent_lost_def make_id_5 ascii_def)
   apply (simp add: reply_outcome_def parsed_accent_lost_def prop_of_def ascii_def)
  apply (simp add: callback_returns_def parsed_accent_lost_def prop_of_def ascii_def)
  done

lemma decoded_one_line:
  assumes "nl \<notin> set line" and "trim line \<noteq> []"
  shows "decoded parse [] (line @ [nl]) = [parse line]"
  using assms by (simp add: decoded_def split_nl_cons_line del: split_nl_Cons)

lemma answered_one_call:
  assumes "nl \<notin> set line" and "trim line \<noteq> []" and "sample_parse line = Some r"
    and "reply_key r = Some (make_id 5 0)" and "callback_returns r"
  shows "promises (handlePluginOutput sample_parse (snd one_call) (line @ [nl])) ! fst one_call =
         reply_outcome r"
proof -
  have "handlePluginOutput sample_parse (snd one_call) (line @ [nl]) =
        process_line sample_parse (snd one_call) line"
    by (rule handle_one_line) (simp_all add: one_call_fields assms)
  also have "\<dots> = (settle 0 (reply_outcome r) (snd one_call))
          \<lparr>responseCallbacks := (responseCallbacks (snd one_call))(make_id 5 0 := None)\<rparr>"
    by (rule process_line_reply) (simp_all add: assms make_id_nonempty one_call_fields)
  finally show ?thesis by (simp add: settle_def one_call_fields)
qed

text \<open>
  Claim C2 fails on bytes. The stdout handler decodes each Buffer on its own before
  \<open>handlePluginOutput\<close> sees it, so the carry holds decoded text and a character whose
  bytes arrive in two Buffers is lost. One call is pending; the reply to it is a valid
  encoded line whose data is the letter \<open>U+00E9\<close>. Delivered as one Buffer, the
  reply decoded is the one sent and the caller gets the letter. Delivered as the same
  bytes parted between the two bytes of the letter, the reply decoded is another one and
  the caller gets two replacement characters.
\<close>

theorem split_letter_changes_reply:
  "take 40 accent_bytes @ drop 40 accent_bytes = accent_bytes \<and>
   decoded_stream sample_parse (snd one_call) (map buffer_toString [accent_bytes]) =
     [Some parsed_accent] \<and>
   decoded_stream sample_parse (snd one_call)
       (map buffer_toString [take 40 accent_bytes, drop 40 accent_bytes]) =
     [Some parsed_accent_lost] \<and>
   promises (foldl (on_stdout sample_parse) (snd one_call) [accent_bytes]) ! fst one_call =
     Fulfilled (Some (JStr [0xE9])) \<and>
   promises (foldl (on_stdout sample_parse) (snd one_call)
               [take 40 accent_bytes, drop 40 accent_bytes]) ! fst one_call =
     Fulfilled (Some (JStr [0xFFFD, 0xFFFD]))"
proof -
  let ?a = "buffer_toString (take 40 accent_bytes)"
  let ?b = "buffer_toString (drop 40 accent_bytes)"
  have whole: "decoded_stream sample_parse (snd one_call) (map buffer_toString [accent_bytes]) =
     [Some parsed_accent]"
    by (simp add: accent_decoded one_call_fields decoded_one_line reply_accent_facts)
  have "decoded_stream sample_parse (snd one_call) [?a, ?b] =
        decoded sample_parse (messageBuffer (snd one_call)) (concat [?a, ?b])"
    by (rule decoded_chunks)
  then have parts: "decoded_stream sample_parse (snd one_call)
       (map buffer_toString [take 40 accent_bytes, drop 40 accent_bytes]) =
     [Some parsed_accent_lost]"
    by (simp add: accent_decoded one_call_fields decoded_one_line reply_accent_lost_facts)
  have p1: "promises (foldl (on_stdout sample_parse) (snd one_call) [accent_bytes]) ! fst one_call =
     Fulfilled (Some (JStr [0xE9]))"
    using answered_one_call [of reply_accent parsed_accent]
    by (simp add: on_stdout_def accent_decoded reply_accent_facts)
  have "foldl (on_stdout sample_parse) (snd one_call)
               [take 40 accent_bytes, drop 40 accent_bytes] =
        handlePluginOutput sample_parse (snd one_call) (?a @ ?b)"
    by (simp add: on_stdout_def handle_append)
  then have p2: "promises (foldl (on_stdout sample_parse) (snd one_call)
               [take 40 accent_bytes, drop 40 accent_bytes]) ! fst one_call =
     Fulfilled (Some (JStr [0xFFFD, 0xFFFD]))"
    using answered_one_call [of reply_accent_lost parsed_accent_lost]
    by (simp add: accent_decoded reply_accent_lost_facts)
  show ?thesis using whole parts p1 p2 by simp
qed



text \<open>
  Against claim C6 as stated: the first call on a fresh bridge whose spawned child has
  no stdin stream is rejected, and the registry keeps the entry made for it. So does a
  call on the running bridge whose command \<open>JSON.stringify\<close> throws on: it is rejected,
  nothing is written to stdin, and its id stays registered.
\<close>

theorem failed_send_leaves_entry:
  "promises (snd no_stdin_call) ! fst no_stdin_call = Rejected NotInitialized \<and>
   responseCallbacks (snd no_stdin_call) (make_id 5 0) = Some (fst no_stdin_call) \<and>
   promises (snd throwing_call) ! fst throwing_call = Rejected (Thrown TypeError) \<and>
   pluginProcess (snd throwing_call) = Some \<lparr>stdin = Some []\<rparr> \<and>
   responseCallbacks (snd throwing_call) (make_id 5 0) = Some (fst throwing_call)"
proof -
  have a: "promises (snd no_stdin_call) ! fst no_stdin_call = Rejected NotInitialized \<and>
      responseCallbacks (snd no_stdin_call) (make_id 5 0) = Some (fst no_stdin_call)"
    by (simp add: no_stdin_call_def sendCommand_def resumeCommand_def initialize_def initial_def
        console_out_def executor_no_stdin [where p = "\<lparr>stdin = None\<rparr>"])
  have b: "promises (snd throwing_call) ! fst throwing_call = Rejected (Thrown TypeError) \<and>
      pluginProcess (snd throwing_call) = Some \<lparr>stdin = Some []\<rparr> \<and>
      responseCallbacks (snd throwing_call) (make_id 5 0) = Some (fst throwing_call)"
    by (simp add: throwing_call_def sendCommand_def running_fields stringify_throws_def
        executor_throws [where p = "\<lparr>stdin = Some []\<rparr>" and w = "[]" and e = TypeError])
  show ?thesis using a b by simp
qed

text \<open>
  The two failures of claim C6 on concrete bridges: a child without stdin stream, and a
  command that cannot be serialized.
\<close>

theorem failed_send_stays_registered_witness:
  "pluginProcess no_stdin = Some \<lparr>stdin = None\<rparr> \<and>
   promises (snd (sendCommand stringify_bare CliMissing 5 GET_SELECTION no_stdin)) !
     fst (sendCommand stringify_bare CliMissing 5 GET_SELECTION no_stdin) = Rejected NotInitialized \<and>
   responseCallbacks (snd (sendCommand stringify_bare CliMissing 5 GET_SELECTION no_stdin))
     (fst (generateId 5 no_stdin)) =
     Some (fst (sendCommand stringify_bare CliMissing 5 GET_SELECTION no_stdin)) \<and>
   pluginProcess running = Some \<lparr>stdin = Some []\<rparr> \<and>
   stringify_throws GET_SELECTION (fst (generateId 5 running)) = Inl TypeError \<and>
   promises (snd throwing_call) ! fst throwing_call = Rejected (Thrown TypeError) \<and>
   responseCallbacks (snd throwing_call) (fst (generateId 5 running)) = Some (fst throwing_call)"
proof -
  have a: "pluginProcess no_stdin = Some \<lparr>stdin = None\<rparr>"
    by (simp add: no_stdin_def)
  have b: "pluginProcess running = Some \<lparr>stdin = Some []\<rparr>"
    by (rule running_fields)
  have c: "stringify_throws GET_SELECTION (fst (generateId 5 running)) = Inl TypeError"
    by (simp add: stringify_throws_def)
  show ?thesis
    using failed_send_stays_registered [OF a, where stringify = stringify_bare
        and env = CliMissing and now = 5 and c = GET_SELECTION]
      failed_send_stays_registered [OF b, where stringify = stringify_throws
        and env = CliMissing and now = 5 and c = GET_SELECTION and w = "[]" and e = TypeError]
      a b c
    by (simp add: throwing_call_def)
qed






lemma reply_unsolicited_facts:
  "nl \<notin> set reply_unsolicited" "trim reply_unsolicited \<noteq> []"
  "sample_parse reply_unsolicited = Some parsed_unsolicited"
  "get_prop parsed_unsolicited (ascii ''id'') = Inr None"
     apply (simp add: reply_unsolicited_def ascii_def nl_def)
    apply (simp add: reply_unsolicited_def ascii_def trim_def is_ws_def)
   apply (simp add: sample_parse_def reply_unsolicited_def reply_ok_def reply_failed_def ascii_def)
  apply (simp add: parsed_unsolicited_def ascii_def)
  done

lemma oops_facts:
  "nl \<notin> set (ascii ''oops'')" "trim (ascii ''oops'') \<noteq> []"
  "sample_parse (ascii ''oops'') = None"
    apply (simp add: ascii_def nl_def)
   apply (simp add: ascii_def trim_def is_ws_def)
  apply (simp add: sample_parse_def reply_unsolicited_def reply_ok_def reply_failed_def
      reply_unprintable_def reply_accent_def reply_accent_lost_def ascii_def)
  done

text \<open>
  Claim C4 on concrete replies: an unsolicited reply without \<open>id\<close> on the running
  bridge, and the reply to the one pending call handled twice.
\<close>

theorem unmatched_reply_only_logged_witness:
  "messageBuffer running = [] \<and> nl \<notin> set reply_unsolicited \<and> trim reply_unsolicited \<noteq> [] \<and>
   sample_parse reply_unsolicited = Some parsed_unsolicited \<and>
   get_prop parsed_unsolicited (ascii ''id'') = Inr None \<and> \<not> truthy None \<and>
   handlePluginOutput sample_parse running (reply_unsolicited @ [nl]) =
     console_out (LogNoCallback parsed_unsolicited) running \<and>
   messageBuffer (snd one_call) = [] \<and> nl \<notin> set reply_ok \<and> trim reply_ok \<noteq> [] \<and>
   sample_parse reply_ok = Some parsed_ok \<and>
   get_prop parsed_ok (ascii ''id'') = Inr (Some (JStr (make_id 5 0))) \<and>
   truthy (Some (JStr (make_id 5 0))) \<and>
   get_callback (responseCallbacks (snd one_call)) (Some (JStr (make_id 5 0))) = Some 0 \<and>
   callback_returns parsed_ok \<and>
   get_callback
     (responseCallbacks (handlePluginOutput sample_parse (snd one_call) (reply_ok @ [nl])))
     (Some (JStr (make_id 5 0))) = None \<and>
   handlePluginOutput sample_parse
     (handlePluginOutput sample_parse (snd one_call) (reply_ok @ [nl])) (reply_ok @ [nl]) =
   console_out (LogNoCallback parsed_ok)
     (handlePluginOutput sample_parse (snd one_call) (reply_ok @ [nl]))"
proof -
  note u = reply_unsolicited_facts
  note k = reply_ok_facts(1-4)
  have b0: "messageBuffer running = []" by (rule running_fields)
  have b1: "messageBuffer (snd one_call) = []" by (rule one_call_fields)
  have t: "truthy (Some (JStr (make_id 5 0)))" by (simp add: make_id_nonempty)
  have g: "get_callback (responseCallbacks (snd one_call)) (Some (JStr (make_id 5 0))) = Some 0"
    by (simp add: one_call_fields)
  from unmatched_reply_only_logged [where parse = sample_parse, OF b0 u, THEN conjunct1]
  have first: "handlePluginOutput sample_parse running (reply_unsolicited @ [nl]) =
     console_out (LogNoCallback parsed_unsolicited) running"
    by simp
  from unmatched_reply_only_logged [where parse = sample_parse and h = 0, OF b1 k, THEN conjunct2]
    t g reply_ok_facts(7)
  have second: "get_callback
     (responseCallbacks (handlePluginOutput sample_parse (snd one_call) (reply_ok @ [nl])))
     (Some (JStr (make_id 5 0))) = None \<and>
     (\<forall>again r'. nl \<notin> set again \<and> trim again \<noteq> [] \<and> sample_parse again = Some r' \<and>
          get_prop r' (ascii ''id'') = Inr (Some (JStr (make_id 5 0))) \<longrightarrow>
        handlePluginOutput sample_parse
          (handlePluginOutput sample_parse (snd one_call) (reply_ok @ [nl])) (again @ [nl]) =
        console_out (LogNoCallback r')
          (handlePluginOutput sample_parse (snd one_call) (reply_ok @ [nl])))"
    by blast
  then have third: "handlePluginOutput sample_parse
     (handlePluginOutput sample_parse (snd one_call) (reply_ok @ [nl])) (reply_ok @ [nl]) =
   console_out (LogNoCallback parsed_ok)
     (handlePluginOutput sample_parse (snd one_call) (reply_ok @ [nl]))"
    using k by blast
  show ?thesis
    using b0 u b1 k t g reply_ok_facts(7) first second third by simp
qed

text \<open>
  Claim C8 on a concrete chunk: the segment \<open>oops\<close> is logged, and the reply after it
  in the same chunk fulfils the pending call.
\<close>

theorem malformed_segment_skipped_witness:
  "messageBuffer (handlePluginOutput sample_parse (snd one_call) []) = [] \<and>
   nl \<notin> set (ascii ''oops'') \<and> trim (ascii ''oops'') \<noteq> [] \<and>
   sample_parse (ascii ''oops'') = None \<and>
   handlePluginOutput sample_parse (snd one_call) (ascii ''oops'' @ nl # reply_ok @ [nl]) =
     handlePluginOutput sample_parse
       (console_out (ErrParsing SyntaxError (ascii ''oops''))
          (handlePluginOutput sample_parse (snd one_call) []))
       (reply_ok @ [nl]) \<and>
   promises (handlePluginOutput sample_parse (snd one_call)
               (ascii ''oops'' @ nl # reply_ok @ [nl])) ! fst one_call =
     Fulfilled (Some (JNum 7)) \<and>
   console (handlePluginOutput sample_parse (snd one_call)
               (ascii ''oops'' @ nl # reply_ok @ [nl])) =
     [ErrParsing SyntaxError (ascii ''oops'')]"
proof -
  have h0: "handlePluginOutput sample_parse (snd one_call) [] = snd one_call"
    by (rule handle_nothing) (rule one_call_fields)
  have b: "messageBuffer (handlePluginOutput sample_parse (snd one_call) []) = []"
    by (simp add: h0 one_call_fields)
  note o = oops_facts
  from malformed_segment_skipped [where parse = sample_parse and rest = "reply_ok @ [nl]", OF b o]
  have step: "handlePluginOutput sample_parse (snd one_call) (ascii ''oops'' @ nl # reply_ok @ [nl]) =
     handlePluginOutput sample_parse
       (console_out (ErrParsing SyntaxError (ascii ''oops''))
          (handlePluginOutput sample_parse (snd one_call) []))
       (reply_ok @ [nl])"
    by simp
  let ?s = "console_out (ErrParsing SyntaxError (ascii ''oops'')) (snd one_call)"
  have "handlePluginOutput sample_parse ?s (reply_ok @ [nl]) = process_line sample_parse ?s reply_ok"
    by (rule handle_one_line) (simp_all add: console_out_simps one_call_fields reply_ok_facts)
  also have "\<dots> = (settle 0 (reply_outcome parsed_ok) ?s)
          \<lparr>responseCallbacks := (responseCallbacks ?s)(make_id 5 0 := None)\<rparr>"
    by (rule process_line_reply)
      (simp_all add: reply_ok_facts make_id_nonempty console_out_simps one_call_fields)
  finally have after: "handlePluginOutput sample_parse ?s (reply_ok @ [nl]) =
      (settle 0 (reply_outcome parsed_ok) ?s)
          \<lparr>responseCallbacks := (responseCallbacks ?s)(make_id 5 0 := None)\<rparr>" .
  have p: "promises (handlePluginOutput sample_parse (snd one_call)
               (ascii ''oops'' @ nl # reply_ok @ [nl])) ! fst one_call =
     Fulfilled (Some (JNum 7))"
    unfolding step h0 after
    by (simp add: settle_def console_out_simps one_call_fields reply_ok_facts)
  have c: "console (handlePluginOutput sample_parse (snd one_call)
               (ascii ''oops'' @ nl # reply_ok @ [nl])) =
     [ErrParsing SyntaxError (ascii ''oops'')]"
    unfolding step h0 after
    by (simp add: settle_simps console_out_def one_call_fields)
  show ?thesis using b o step p c by simp
qed





end
